theory Spec2Isabelle
  imports
    Main
    "HOL-Library.Char_ord"
    "HOL-Library.List_Lexorder"
    "HOL-Library.Sublist"
begin

section \<open>JavaScript values\<close>

text \<open>
  The helpers of \<^verbatim>\<open>packages/json-schema/src/helpers.ts\<close> work on values of type
  \<^verbatim>\<open>any\<close>. The model has the JSON values, \<^verbatim>\<open>undefined\<close> and \<^verbatim>\<open>Date\<close>
  (which \<^verbatim>\<open>isEqual\<close> tests for). Numbers are the integer-valued ones: fractions,
  infinities, \<^verbatim>\<open>-0\<close> and \<^verbatim>\<open>NaN\<close> are outside the model. An object is the list
  of its own enumerable properties in insertion order; a \<^verbatim>\<open>Date\<close> carries its
  timestamp and no own property. Functions and members inherited from a
  prototype are outside the model.
\<close>

datatype jsval =
    JUndefined
  | JNull
  | JBool bool
  | JNum int
  | JStr string
  | JDate int
  | JArr "jsval list"
  | JObj "(string \<times> jsval) list"

text \<open>
  \<^verbatim>\<open>a === b\<close>. Primitives are compared by value. Arrays, objects and dates are
  compared by reference: the operands of the model are separate allocations,
  so the test fails for them. (Lemma \<open>isEqual_refl\<close> below shows that
  \<^verbatim>\<open>isEqual\<close> answers \<^verbatim>\<open>true\<close> on structurally identical operands anyway, so
  an aliased operand gets the same answer as its copy.)
\<close>

fun strict_eq :: "jsval \<Rightarrow> jsval \<Rightarrow> bool" where
  "strict_eq (JDate _) _ = False"
| "strict_eq (JArr _) _ = False"
| "strict_eq (JObj _) _ = False"
| "strict_eq a b = (a = b)"

fun typeof :: "jsval \<Rightarrow> string" where
  "typeof JUndefined = ''undefined''"
| "typeof JNull = ''object''"
| "typeof (JBool _) = ''boolean''"
| "typeof (JNum _) = ''number''"
| "typeof (JStr _) = ''string''"
| "typeof (JDate _) = ''object''"
| "typeof (JArr _) = ''object''"
| "typeof (JObj _) = ''object''"

text \<open>Truthiness, as tested by \<^verbatim>\<open>if (schema)\<close> and \<^verbatim>\<open>schema && ...\<close>.\<close>

fun truthy :: "jsval \<Rightarrow> bool" where
  "truthy JUndefined = False"
| "truthy JNull = False"
| "truthy (JBool b) = b"
| "truthy (JNum n) = (n \<noteq> 0)"
| "truthy (JStr s) = (s \<noteq> [])"
| "truthy (JDate _) = True"
| "truthy (JArr _) = True"
| "truthy (JObj _) = True"

fun instanceof_Date :: "jsval \<Rightarrow> bool" where
  "instanceof_Date (JDate _) = True"
| "instanceof_Date _ = False"

fun getTime :: "jsval \<Rightarrow> int" where
  "getTime (JDate t) = t"
| "getTime _ = 0"

fun isArray :: "jsval \<Rightarrow> bool" where
  "isArray (JArr _) = True"
| "isArray _ = False"

fun elements :: "jsval \<Rightarrow> jsval list" where
  "elements (JArr xs) = xs"
| "elements _ = []"

text \<open>
  \<^verbatim>\<open>Object.keys(a)\<close> and \<^verbatim>\<open>a[key]\<close>. \<^verbatim>\<open>isEqual\<close> applies them to operands that
  are not arrays, so only objects (and dates, which have no own property) are
  given keys here. A missing property reads as \<^verbatim>\<open>undefined\<close>.
\<close>

fun Object_keys :: "jsval \<Rightarrow> string list" where
  "Object_keys (JObj kvs) = map fst kvs"
| "Object_keys _ = []"

fun getProperty :: "jsval \<Rightarrow> string \<Rightarrow> jsval" where
  "getProperty (JObj kvs) key = (case map_of kvs key of Some v \<Rightarrow> v | None \<Rightarrow> JUndefined)"
| "getProperty _ key = JUndefined"

section \<open>Deep equality\<close>

text \<open>The measure for the recursion of \<^verbatim>\<open>isEqual\<close>, which descends into its first operand.\<close>

fun weight :: "jsval \<Rightarrow> nat" where
  "weight JUndefined = 0"
| "weight JNull = 0"
| "weight (JBool _) = 0"
| "weight (JNum _) = 0"
| "weight (JStr _) = 0"
| "weight (JDate _) = 2"
| "weight (JArr xs) = 1 + sum_list (map (\<lambda>x. 1 + weight x) xs)"
| "weight (JObj kvs) = 2 + sum_list (map (\<lambda>kv. 2 + weight (snd kv)) kvs)"

text \<open>
  \<^verbatim>\<open>
  export const isEqual = (a: any, b: any): boolean => {
    if (a === b) { return true; }
    if (a === undefined || b === undefined || a === null || b === null) { return false; }
    if (typeof a === 'object' && typeof b === 'object') {
      if (a instanceof Date && b instanceof Date) {
        return a.getTime() === b.getTime();
      } else if (Array.isArray(a) && Array.isArray(b)) {
        return a.length === b.length && a.every((item, index) => isEqual(item, b[index]));
      } else if (!Array.isArray(a) && !Array.isArray(b)) {
        const aKeys = Object.keys(a).sort();
        const bKeys = Object.keys(a).sort();
        return isEqual(aKeys, bKeys) && aKeys.every(key => isEqual(a[key], b[key]));
      }
    }
    return false;
  };
  \<close>
  \<^verbatim>\<open>sort()\<close> without a comparator orders strings by their code units; the model
  sorts the keys in the lexicographic order of their characters.
\<close>

function isEqual :: "jsval \<Rightarrow> jsval \<Rightarrow> bool" where
  "isEqual a b =
    (if strict_eq a b then True
     else if a = JUndefined \<or> b = JUndefined \<or> a = JNull \<or> b = JNull then False
     else if typeof a = ''object'' \<and> typeof b = ''object'' then
       (if instanceof_Date a \<and> instanceof_Date b then getTime a = getTime b
        else if isArray a \<and> isArray b then
          length (elements a) = length (elements b) \<and>
          list_all (\<lambda>index. isEqual (elements a ! index) (elements b ! index))
            [0..<length (elements a)]
        else if \<not> isArray a \<and> \<not> isArray b then
          (let aKeys = sort (Object_keys a);
               bKeys = sort (Object_keys a)
           in isEqual (JArr (map JStr aKeys)) (JArr (map JStr bKeys)) \<and>
              list_all (\<lambda>key. isEqual (getProperty a key) (getProperty b key)) aKeys)
        else False)
     else False)"
  by pat_completeness auto
termination
proof (relation "measure (\<lambda>(a, b). weight a)", goal_cases)
  case 1
  show ?case by simp
next
  case (2 a b index)
  have elem: "x \<in> set xs \<Longrightarrow> weight x < weight (JArr xs)" for x xs
    by (induction xs) auto
  from 2 show ?case
    using elem [of "elements a ! index" "elements a"] by (cases a) auto
next
  case (3 a b aKeys bKeys)
  have keys: "weight (JArr (map JStr ks)) = 1 + length ks" for ks
    by (induction ks) auto
  have obj: "2 + 2 * length kvs \<le> weight (JObj kvs)" for kvs
    by (induction kvs) auto
  have "weight (JArr (map JStr (sort (Object_keys a)))) < weight a"
  proof (cases a)
    case (JObj kvs)
    have "weight (JArr (map JStr (sort (Object_keys a)))) = 1 + length kvs"
      using JObj by (simp add: keys del: weight.simps)
    with obj [of kvs] JObj show ?thesis
      by (simp del: weight.simps)
  qed (use 3 in auto)
  with 3 show ?case by (simp del: weight.simps)
next
  case (4 a b aKeys bKeys key)
  have entry: "(k, v) \<in> set kvs \<Longrightarrow> weight v < weight (JObj kvs)" for k v kvs
    by (induction kvs) auto
  have "weight (getProperty a key) < weight a" if "key \<in> set (Object_keys a)"
  proof (cases a)
    case (JObj kvs)
    with that have "map_of kvs key \<noteq> None"
      by (simp add: map_of_eq_None_iff)
    then obtain v where v: "map_of kvs key = Some v" by blast
    then have "(key, v) \<in> set kvs" by (rule map_of_SomeD)
    with v show ?thesis using JObj entry [of key v kvs] by simp
  qed (use that in auto)
  with 4 show ?case by simp
qed

declare isEqual.simps [simp del]

section \<open>List helpers\<close>

text \<open>
  \<^verbatim>\<open>
  export const flatten = <T>(results: T[][]): T[] => {
    const combined: T[] = [];
    for (const result of results) {
      for (const error of result) { combined.push(error); }
    }
    return combined;
  };
  \<close>
  Both loops are folds over the local array \<^verbatim>\<open>combined\<close>.
\<close>

definition flatten :: "'a list list \<Rightarrow> 'a list" where
  "flatten results =
     fold (\<lambda>result combined. fold (\<lambda>error combined. combined @ [error]) result combined)
       results []"

text \<open>
  \<^verbatim>\<open>
  export const isUniqueWith = <T = any>(compare: (a: T, b: T) => boolean, array: T[]) => {
    const items: T[] = [];
    for (const item of array) {
      if (!items.some(prev => compare(prev, item))) { items.push(item); }
    }
    return items;
  };
  \<close>
\<close>

definition isUniqueWith :: "('a \<Rightarrow> 'a \<Rightarrow> bool) \<Rightarrow> 'a list \<Rightarrow> 'a list" where
  "isUniqueWith compare array =
     fold (\<lambda>item items.
             if \<not> list_ex (\<lambda>prev. compare prev item) items then items @ [item] else items)
       array []"

section \<open>Errors and options\<close>

text \<open>
  The module \<^verbatim>\<open>./types\<close> that declares \<^verbatim>\<open>ValidateOptions\<close> and the error shape is
  not among the sources; both records follow the specification's data model.
\<close>

text \<open>
  Modelled from the spec: the type of a validation error (declared in \<^verbatim>\<open>./types\<close>),
  \<^verbatim>\<open>{ code: string, name: string, param?: any }\<close>.
\<close>

record ValidationError =
  code :: string
  name :: string
  param :: jsval

text \<open>
  Modelled from the spec: the type \<^verbatim>\<open>ValidateOptions\<close> (declared in \<^verbatim>\<open>./types\<close>),
  \<^verbatim>\<open>{ name, validators, refs, root }\<close>. The registered validators are
  functions that take the options themselves; a validator is therefore a value
  of a type \<open>'f\<close>, and calling one goes through a function \<open>call\<close> that the
  dispatcher takes as its first argument. Any further field of an options
  object is the \<open>more\<close> part of the record.
\<close>

record 'f ValidateOptions =
  name :: string
  validators :: "'f list"
  refs :: jsval
  root :: jsval

text \<open>
  \<^verbatim>\<open>
  export const childOptions = (name: string | number, options: ValidateOptions) => ({
    ...options,
    name: `${options.name}.${name}`,
  });
  \<close>
  The argument \<^verbatim>\<open>name\<close> (\<open>key\<close> below, as \<open>name\<close> is the field) is a string or a
  number; a number is interpolated by its decimal digits.
\<close>

datatype name_arg = NameStr string | NameNum int

fun digits :: "nat \<Rightarrow> string" where
  "digits n =
     (if n < 10 then [''0123456789'' ! n]
      else digits (n div 10) @ [''0123456789'' ! (n mod 10)])"

declare digits.simps [simp del]

definition number_toString :: "int \<Rightarrow> string" where
  "number_toString i = (if i < 0 then ''-'' @ digits (nat (- i)) else digits (nat i))"

fun interpolate :: "name_arg \<Rightarrow> string" where
  "interpolate (NameStr s) = s"
| "interpolate (NameNum i) = number_toString i"

definition childOptions ::
  "name_arg \<Rightarrow> ('f, 'z) ValidateOptions_scheme \<Rightarrow> ('f, 'z) ValidateOptions_scheme" where
  "childOptions key options =
     options\<lparr>name := ValidateOptions.name options @ ''.'' @ interpolate key\<rparr>"

text \<open>
  The object literal with the spread allocates a new object. On a heap of
  options objects (a reference is an index) the call reads the object behind
  its argument and returns a fresh reference, the heap extended by the new
  object.
\<close>

definition childOptions_alloc ::
  "name_arg \<Rightarrow> nat \<Rightarrow> ('f, 'z) ValidateOptions_scheme list \<Rightarrow>
     nat \<times> ('f, 'z) ValidateOptions_scheme list" where
  "childOptions_alloc key options heap =
     (length heap, heap @ [childOptions key (heap ! options)])"

section \<open>The dispatcher\<close>

text \<open>
  \<^verbatim>\<open>
  export const isJsonSchema = (schema: Schema): schema is JsonSchema =>
    schema && typeof schema === 'object';
  \<close>
\<close>

definition isJsonSchema :: "jsval \<Rightarrow> bool" where
  "isJsonSchema schema = (truthy schema \<and> typeof schema = ''object'')"

text \<open>
  \<^verbatim>\<open>
  export const validateSchema: Validator<Schema> = (schema, value, options) => {
    if (schema === true) {
      return [];
    } else if (schema === false) {
      return [{ code: 'false', name: options.name, param: false }];
    } else if (schema) {
      return flatten(options.validators.map(validator => validator(schema, value, options)));
    } else {
      return [];
    }
  };
  \<close>
  The schema is whatever value arrives at run time.
\<close>

definition validateSchema ::
  "('f \<Rightarrow> jsval \<Rightarrow> jsval \<Rightarrow> ('f, 'z) ValidateOptions_scheme \<Rightarrow> ValidationError list) \<Rightarrow>
     jsval \<Rightarrow> jsval \<Rightarrow> ('f, 'z) ValidateOptions_scheme \<Rightarrow> ValidationError list" where
  "validateSchema call schema value options =
     (if strict_eq schema (JBool True) then []
      else if strict_eq schema (JBool False) then
        [\<lparr>code = ''false'', name = ValidateOptions.name options, param = JBool False\<rparr>]
      else if truthy schema then
        flatten (map (\<lambda>validator. call validator schema value options) (validators options))
      else [])"

text \<open>
  Modelled from the spec: the contract of a keyword validator (the keyword
  validators are not among the sources), "a keyword validator that finds its
  keyword absent from the schema returns no errors". The keyword of a
  validator is given by \<open>keyword\<close>; it is absent when reading it from the schema
  gives \<^verbatim>\<open>undefined\<close>. (A string or a number has no property in the model:
  their built-in members, such as \<^verbatim>\<open>length\<close>, are not keywords of JSON Schema.)
\<close>

definition honours_absence ::
  "('f \<Rightarrow> string) \<Rightarrow>
   ('f \<Rightarrow> jsval \<Rightarrow> jsval \<Rightarrow> ('f, 'z) ValidateOptions_scheme \<Rightarrow> ValidationError list) \<Rightarrow>
     'f \<Rightarrow> jsval \<Rightarrow> jsval \<Rightarrow> ('f, 'z) ValidateOptions_scheme \<Rightarrow> bool" where
  "honours_absence keyword call validator schema value options =
     (getProperty schema (keyword validator) = JUndefined \<longrightarrow>
        call validator schema value options = [])"

subsection \<open>The dispatcher with its arrays in memory\<close>

text \<open>
  A heap is the list of the arrays of errors allocated so far, and a reference
  to an array is its index. An array literal allocates a new array, and
  \<^verbatim>\<open>push\<close> changes the array behind a reference in place. A validator takes the
  heap and returns a reference to the array of its errors and the heap it
  leaves; \<^verbatim>\<open>map\<close> calls the validators from left to right. The array of
  results that \<^verbatim>\<open>map\<close> builds is local to the call and is kept as the list of
  the references in it.
\<close>

type_synonym heap = "ValidationError list list"

definition push :: "nat \<Rightarrow> ValidationError \<Rightarrow> heap \<Rightarrow> heap" where
  "push array error h = h[array := h ! array @ [error]]"

fun map_state :: "('a \<Rightarrow> 's \<Rightarrow> 'b \<times> 's) \<Rightarrow> 'a list \<Rightarrow> 's \<Rightarrow> 'b list \<times> 's" where
  "map_state f [] s = ([], s)"
| "map_state f (x # xs) s =
     (case f x s of (y, s') \<Rightarrow> (case map_state f xs s' of (ys, s'') \<Rightarrow> (y # ys, s'')))"

text \<open>
  \<^verbatim>\<open>flatten\<close>: \<^verbatim>\<open>const combined = []\<close> allocates, the loops read the arrays
  behind the results and push onto \<^verbatim>\<open>combined\<close>, whose reference is returned.
\<close>

definition flatten_heap :: "nat list \<Rightarrow> heap \<Rightarrow> nat \<times> heap" where
  "flatten_heap results h =
     (let combined = length h;
          h = h @ [[]]
      in (combined,
          fold (\<lambda>result h. fold (\<lambda>error h. push combined error h) (h ! result) h) results h))"

text \<open>\<^verbatim>\<open>validateSchema\<close>: each \<^verbatim>\<open>return\<close> of an array literal allocates it.\<close>

definition validateSchema_heap ::
  "('f \<Rightarrow> jsval \<Rightarrow> jsval \<Rightarrow> ('f, 'z) ValidateOptions_scheme \<Rightarrow> heap \<Rightarrow> nat \<times> heap) \<Rightarrow>
     jsval \<Rightarrow> jsval \<Rightarrow> ('f, 'z) ValidateOptions_scheme \<Rightarrow> heap \<Rightarrow> nat \<times> heap" where
  "validateSchema_heap call schema value options h =
     (if strict_eq schema (JBool True) then (length h, h @ [[]])
      else if strict_eq schema (JBool False) then
        (length h,
         h @ [[\<lparr>code = ''false'', name = ValidateOptions.name options, param = JBool False\<rparr>]])
      else if truthy schema then
        (case map_state (\<lambda>validator. call validator schema value options) (validators options) h of
           (results, h') \<Rightarrow> flatten_heap results h')
      else (length h, h @ [[]]))"

text \<open>
  A validator is a pure function when the array it returns holds the errors
  that a function of its arguments alone gives, and the arrays that were there
  before the call are as they were.
\<close>

definition pure_validator ::
  "('f \<Rightarrow> jsval \<Rightarrow> jsval \<Rightarrow> ('f, 'z) ValidateOptions_scheme \<Rightarrow> heap \<Rightarrow> nat \<times> heap) \<Rightarrow>
   ('f \<Rightarrow> jsval \<Rightarrow> jsval \<Rightarrow> ('f, 'z) ValidateOptions_scheme \<Rightarrow> ValidationError list) \<Rightarrow>
     'f \<Rightarrow> jsval \<Rightarrow> jsval \<Rightarrow> ('f, 'z) ValidateOptions_scheme \<Rightarrow> heap \<Rightarrow> bool" where
  "pure_validator callH call validator schema value options h =
     (case callH validator schema value options h of
        (errors, h') \<Rightarrow>
          errors < length h' \<and> h' ! errors = call validator schema value options \<and>
          take (length h) h' = h)"

subsection \<open>Sample validators\<close>

text \<open>A validator that reports one error at the current path, whatever it is given.\<close>

definition reject_all ::
  "unit \<Rightarrow> jsval \<Rightarrow> jsval \<Rightarrow> unit ValidateOptions \<Rightarrow> ValidationError list" where
  "reject_all validator schema value options =
     [\<lparr>code = ''type'', name = ValidateOptions.name options, param = JUndefined\<rparr>]"

text \<open>Validators named by their keyword, each reporting one error under that code.\<close>

definition report_keyword ::
  "string \<Rightarrow> jsval \<Rightarrow> jsval \<Rightarrow> string ValidateOptions \<Rightarrow> ValidationError list" where
  "report_keyword validator schema value options =
     [\<lparr>code = validator, name = ValidateOptions.name options, param = schema\<rparr>]"

text \<open>
  A validator that honours the contract: it reports its keyword where the
  schema has it and nothing where the schema has not.
\<close>

definition check_keyword ::
  "string \<Rightarrow> jsval \<Rightarrow> jsval \<Rightarrow> string ValidateOptions \<Rightarrow> ValidationError list" where
  "check_keyword validator schema value options =
     (if getProperty schema validator = JUndefined then []
      else [\<lparr>code = validator, name = ValidateOptions.name options,
             param = getProperty schema validator\<rparr>])"

text \<open>A pure validator in memory: it returns its errors in a new array.\<close>

definition allocating ::
  "('f \<Rightarrow> jsval \<Rightarrow> jsval \<Rightarrow> ('f, 'z) ValidateOptions_scheme \<Rightarrow> ValidationError list) \<Rightarrow>
     'f \<Rightarrow> jsval \<Rightarrow> jsval \<Rightarrow> ('f, 'z) ValidateOptions_scheme \<Rightarrow> heap \<Rightarrow> nat \<times> heap" where
  "allocating call validator schema value options h =
     (length h, h @ [call validator schema value options])"

text \<open>
  A validator with hidden state: it pushes its error onto the array behind
  reference 0, which outlives the call, and returns that array.
\<close>

definition accumulating ::
  "unit \<Rightarrow> jsval \<Rightarrow> jsval \<Rightarrow> unit ValidateOptions \<Rightarrow> heap \<Rightarrow> nat \<times> heap" where
  "accumulating validator schema value options h =
     (0, push 0 \<lparr>code = ''type'', name = ValidateOptions.name options, param = JUndefined\<rparr> h)"

text \<open>A comparator for \<^verbatim>\<open>isUniqueWith\<close>: equal remainders modulo 3.\<close>

definition same_residue :: "nat \<Rightarrow> nat \<Rightarrow> bool" where
  "same_residue a b = (a mod 3 = b mod 3)"

section \<open>Properties of the list helpers\<close>

lemma fold_push:
  "fold (\<lambda>error combined. combined @ [error]) result combined = combined @ result"
  by (induction result arbitrary: combined) simp_all

lemma flatten_fold:
  "fold (\<lambda>result combined. fold (\<lambda>error combined. combined @ [error]) result combined)
     results combined = combined @ concat results"
  by (induction results arbitrary: combined) (simp_all add: fold_push)

lemma flatten_concat: "flatten results = concat results"
  by (simp add: flatten_def flatten_fold)

lemma isUniqueWith_Nil: "isUniqueWith compare [] = []"
  by (simp add: isUniqueWith_def)

lemma isUniqueWith_snoc:
  "isUniqueWith compare (ys @ [x]) =
     (if list_ex (\<lambda>prev. compare prev x) (isUniqueWith compare ys)
      then isUniqueWith compare ys else isUniqueWith compare ys @ [x])"
  by (simp add: isUniqueWith_def)

lemma isUniqueWith_subseq: "subseq (isUniqueWith compare xs) xs"
proof (induction xs rule: rev_induct)
  case Nil
  show ?case by (simp add: isUniqueWith_Nil)
next
  case (snoc x xs)
  then show ?case
    by (simp add: isUniqueWith_snoc subseq_rev_drop_many)
qed

lemma isUniqueWith_set: "set (isUniqueWith compare xs) \<subseteq> set xs"
  using isUniqueWith_subseq [of compare xs] by (auto dest: list_emb_set)

lemma isUniqueWith_prefix:
  "prefix (isUniqueWith compare xs) (isUniqueWith compare (xs @ zs))"
proof (induction zs rule: rev_induct)
  case Nil
  show ?case by simp
next
  case (snoc z zs)
  have "isUniqueWith compare (xs @ zs @ [z]) = isUniqueWith compare ((xs @ zs) @ [z])"
    by simp
  with snoc show ?case
    by (simp only: isUniqueWith_snoc split: if_splits) (auto intro: prefix_order.trans)
qed

lemma isUniqueWith_keeps_first:
  assumes "\<forall>y\<in>set ys. \<not> compare y x"
  shows "x \<in> set (isUniqueWith compare (ys @ x # zs))"
proof -
  have "\<not> list_ex (\<lambda>prev. compare prev x) (isUniqueWith compare ys)"
    using assms isUniqueWith_set [of compare ys] by (auto simp: list_ex_iff)
  then have "x \<in> set (isUniqueWith compare (ys @ [x]))"
    by (simp add: isUniqueWith_snoc)
  moreover have "prefix (isUniqueWith compare (ys @ [x])) (isUniqueWith compare ((ys @ [x]) @ zs))"
    by (rule isUniqueWith_prefix)
  ultimately show ?thesis
    by (auto dest: set_mono_prefix)
qed

lemma isUniqueWith_pairwise: "sorted_wrt (\<lambda>y z. \<not> compare y z) (isUniqueWith compare xs)"
proof (induction xs rule: rev_induct)
  case Nil
  show ?case by (simp add: isUniqueWith_Nil)
next
  case (snoc x xs)
  then show ?case
    by (auto simp: isUniqueWith_snoc sorted_wrt_append list_ex_iff)
qed

lemma isUniqueWith_fixed:
  "sorted_wrt (\<lambda>y z. \<not> compare y z) xs \<Longrightarrow> isUniqueWith compare xs = xs"
proof (induction xs rule: rev_induct)
  case Nil
  show ?case by (simp add: isUniqueWith_Nil)
next
  case (snoc x xs)
  then show ?case
    by (auto simp: isUniqueWith_snoc sorted_wrt_append list_ex_iff)
qed

text \<open>
  C9. For every comparator and every list, \<^verbatim>\<open>isUniqueWith\<close> returns a subsequence
  of its input (every output element occurs in the input, in the input's
  order); an element is kept exactly when no element kept before it compares
  equal to it; an element that no earlier element of the input compares equal
  to (the first of its group) is kept; and of two output elements the earlier
  never compares equal to the later.
\<close>

theorem isUniqueWith_spec:
  "subseq (isUniqueWith compare xs) xs \<and>
   isUniqueWith compare (xs @ [x]) =
     (if \<exists>prev\<in>set (isUniqueWith compare xs). compare prev x
      then isUniqueWith compare xs else isUniqueWith compare xs @ [x]) \<and>
   (\<forall>i<length xs. (\<forall>j<i. \<not> compare (xs ! j) (xs ! i)) \<longrightarrow>
      xs ! i \<in> set (isUniqueWith compare xs)) \<and>
   (\<forall>i j. i < j \<and> j < length (isUniqueWith compare xs) \<longrightarrow>
      \<not> compare (isUniqueWith compare xs ! i) (isUniqueWith compare xs ! j))"
proof (intro conjI allI impI)
  show "subseq (isUniqueWith compare xs) xs"
    by (rule isUniqueWith_subseq)
next
  show "isUniqueWith compare (xs @ [x]) =
     (if \<exists>prev\<in>set (isUniqueWith compare xs). compare prev x
      then isUniqueWith compare xs else isUniqueWith compare xs @ [x])"
    by (simp add: isUniqueWith_snoc list_ex_iff)
next
  fix i
  assume i: "i < length xs" and first: "\<forall>j<i. \<not> compare (xs ! j) (xs ! i)"
  have split: "xs = take i xs @ xs ! i # drop (Suc i) xs"
    using i by (rule id_take_nth_drop)
  have "\<forall>y\<in>set (take i xs). \<not> compare y (xs ! i)"
    using first i by (auto simp: in_set_conv_nth)
  then have "xs ! i \<in> set (isUniqueWith compare (take i xs @ xs ! i # drop (Suc i) xs))"
    by (rule isUniqueWith_keeps_first)
  with split show "xs ! i \<in> set (isUniqueWith compare xs)"
    by simp
next
  fix i j
  assume "i < j \<and> j < length (isUniqueWith compare xs)"
  then show "\<not> compare (isUniqueWith compare xs ! i) (isUniqueWith compare xs ! j)"
    using isUniqueWith_pairwise [of compare xs] by (simp add: sorted_wrt_iff_nth_less)
qed

theorem isUniqueWith_spec_witness:
  "isUniqueWith same_residue [4, 7, 2, 10, 5, 3] = [4, 2, 3] \<and>
   subseq [4, 2, 3] [4, 7, 2, 10, 5, 3 :: nat] \<and>
   2 \<in> set (isUniqueWith same_residue [4, 7, 2, 10, 5, 3]) \<and>
   \<not> same_residue (isUniqueWith same_residue [4, 7, 2, 10, 5, 3] ! 0)
        (isUniqueWith same_residue [4, 7, 2, 10, 5, 3] ! 2)"
proof -
  let ?xs = "[4, 7, 2, 10, 5, 3 :: nat]"
  note spec = isUniqueWith_spec [of same_residue ?xs 6]
  have run: "isUniqueWith same_residue ?xs = [4, 2, 3]"
    by (simp add: isUniqueWith_def same_residue_def)
  have sub: "subseq (isUniqueWith same_residue ?xs) ?xs"
    using spec by (rule conjunct1)
  have kept: "\<forall>i<length ?xs. (\<forall>j<i. \<not> same_residue (?xs ! j) (?xs ! i)) \<longrightarrow>
      ?xs ! i \<in> set (isUniqueWith same_residue ?xs)"
    using spec by (rule conjunct1 [OF conjunct2 [OF conjunct2]])
  have apart: "\<forall>i j. i < j \<and> j < length (isUniqueWith same_residue ?xs) \<longrightarrow>
      \<not> same_residue (isUniqueWith same_residue ?xs ! i) (isUniqueWith same_residue ?xs ! j)"
    using spec by (rule conjunct2 [OF conjunct2 [OF conjunct2]])
  have first: "(2::nat) < length ?xs \<and> (\<forall>j<2. \<not> same_residue (?xs ! j) (?xs ! 2))"
    by (auto simp: same_residue_def less_2_cases_iff)
  have "?xs ! 2 \<in> set (isUniqueWith same_residue ?xs)"
    using kept first by blast
  moreover have "(0::nat) < 2 \<and> 2 < length (isUniqueWith same_residue ?xs)"
    by (simp add: run)
  then have "\<not> same_residue (isUniqueWith same_residue ?xs ! 0) (isUniqueWith same_residue ?xs ! 2)"
    using apart by blast
  ultimately show ?thesis using run sub by simp
qed

text \<open>
  C10. \<^verbatim>\<open>isUniqueWith\<close> is idempotent for every comparator, symmetric and
  transitive or not: applying it to its own output with the same comparator
  returns that output.
\<close>

theorem isUniqueWith_idempotent:
  "isUniqueWith compare (isUniqueWith compare xs) = isUniqueWith compare xs"
  by (rule isUniqueWith_fixed) (rule isUniqueWith_pairwise)

text \<open>The comparator \<open>(<)\<close> is neither symmetric nor reflexive.\<close>

theorem isUniqueWith_idempotent_witness:
  "isUniqueWith (<) [2, 5, 3, 4, 2 :: nat] = [2, 2] \<and>
   isUniqueWith (<) (isUniqueWith (<) [2, 5, 3, 4, 2 :: nat]) = [2, 2]"
proof -
  have run: "isUniqueWith (<) [2, 5, 3, 4, 2 :: nat] = [2, 2]"
    by (simp add: isUniqueWith_def)
  with isUniqueWith_idempotent [of "(<)" "[2, 5, 3, 4, 2 :: nat]"] show ?thesis
    by simp
qed

section \<open>Properties of deep equality\<close>

lemmas isEqual_unfold =
  isEqual.simps [of JUndefined] isEqual.simps [of JNull] isEqual.simps [of "JBool _"]
  isEqual.simps [of "JNum _"] isEqual.simps [of "JStr _"] isEqual.simps [of "JDate _"]

lemma isEqual_keys: "isEqual (JArr (map JStr ks)) (JArr (map JStr ks))"
  by (subst isEqual.simps) (simp add: list_all_iff isEqual.simps [of "JStr _" "JStr _"])

lemma isEqual_no_keys: "isEqual (JArr []) (JArr [])"
  using isEqual_keys [of "[]"] by simp

text \<open>
  Two operands that are objects, not arrays and not both dates: the keys
  compared are the first operand's, twice, so the test on the keys always
  succeeds and only the first operand's properties are looked at.
\<close>

lemma isEqual_object:
  assumes "typeof a = ''object''" "a \<noteq> JNull" "\<not> isArray a"
      and "typeof b = ''object''" "b \<noteq> JNull" "\<not> isArray b"
      and "\<not> (instanceof_Date a \<and> instanceof_Date b)"
  shows "isEqual a b =
           list_all (\<lambda>key. isEqual (getProperty a key) (getProperty b key)) (sort (Object_keys a))"
  using assms
  by (cases a; cases b)
    (simp_all add: isEqual_unfold isEqual.simps [of "JObj _"] isEqual_keys isEqual_no_keys Let_def)

lemma isEqual_plain:
  "isEqual (JObj kvs) (JObj kvs') =
     list_all (\<lambda>key. isEqual (getProperty (JObj kvs) key) (getProperty (JObj kvs') key))
       (sort (map fst kvs))"
  using isEqual_object [of "JObj kvs" "JObj kvs'"] by simp

text \<open>
  \<^verbatim>\<open>isEqual\<close> is reflexive on the values of the model, so the shortcut
  \<^verbatim>\<open>a === b\<close> for one object reached twice gives the answer that the structural
  comparison of two copies gives.
\<close>

lemma isEqual_refl: "isEqual a a"
proof (induction a rule: measure_induct_rule [of weight])
  case (less a)
  show ?case
  proof (cases a)
    case (JArr xs)
    have "isEqual (xs ! i) (xs ! i)" if "i < length xs" for i
    proof -
      have "x \<in> set xs \<Longrightarrow> weight x < weight (JArr xs)" for x
        by (induction xs) auto
      with that have "weight (xs ! i) < weight (JArr xs)"
        by (simp del: weight.simps)
      with JArr show ?thesis by (simp add: less.IH)
    qed
    with JArr show ?thesis
      by (subst isEqual.simps) (simp add: list_all_iff)
  next
    case (JObj kvs)
    have "isEqual (getProperty a key) (getProperty a key)" if "key \<in> set (Object_keys a)" for key
    proof -
      from that JObj have "map_of kvs key \<noteq> None"
        by (simp add: map_of_eq_None_iff)
      then obtain v where v: "map_of kvs key = Some v" by blast
      then have "(key, v) \<in> set kvs" by (rule map_of_SomeD)
      then have "weight v < weight (JObj kvs)"
        by (induction kvs) auto
      with v JObj show ?thesis by (simp add: less.IH)
    qed
    with JObj show ?thesis
      by (simp add: isEqual_plain list_all_iff)
  qed (simp_all add: isEqual_unfold)
qed

text \<open>
  C4. When \<^verbatim>\<open>isEqual\<close> compares two objects that are neither arrays nor dates,
  both key lists come from \<^verbatim>\<open>a\<close>: the result is decided by \<^verbatim>\<open>a\<close>'s keys alone and
  the keys of \<^verbatim>\<open>b\<close> are never read. So there are objects with different key
  sets that compare equal: \<^verbatim>\<open>isEqual({x: 1}, {x: 1, y: 2})\<close> is true, and
  \<^verbatim>\<open>isEqual\<close> is not symmetric, as \<^verbatim>\<open>isEqual({x: 1, y: 2}, {x: 1})\<close> is false.
\<close>

theorem isEqual_keys_from_first_operand:
  "(\<forall>kvs kvs'. isEqual (JObj kvs) (JObj kvs') =
      list_all (\<lambda>key. isEqual (getProperty (JObj kvs) key) (getProperty (JObj kvs') key))
        (sort (Object_keys (JObj kvs)))) \<and>
   set (Object_keys (JObj [(''x'', JNum 1)])) \<noteq>
     set (Object_keys (JObj [(''x'', JNum 1), (''y'', JNum 2)])) \<and>
   isEqual (JObj [(''x'', JNum 1)]) (JObj [(''x'', JNum 1), (''y'', JNum 2)]) \<and>
   \<not> isEqual (JObj [(''x'', JNum 1), (''y'', JNum 2)]) (JObj [(''x'', JNum 1)])"
  by (simp add: isEqual_plain isEqual_unfold)

theorem isEqual_keys_from_first_operand_witness:
  "isEqual (JObj []) (JObj [(''y'', JNum 2)]) \<and>
   \<not> isEqual (JObj [(''y'', JNum 2)]) (JObj [])"
proof -
  have plain: "isEqual (JObj kvs) (JObj kvs') =
      list_all (\<lambda>key. isEqual (getProperty (JObj kvs) key) (getProperty (JObj kvs') key))
        (sort (Object_keys (JObj kvs)))" for kvs kvs'
    using isEqual_keys_from_first_operand by blast
  show ?thesis
    using plain [of "[]" "[(''y'', JNum 2)]"] plain [of "[(''y'', JNum 2)]" "[]"]
    by (simp add: isEqual_unfold)
qed

text \<open>
  C5 (as amended). For every pair of non-null, non-array objects \<^verbatim>\<open>a\<close> and \<^verbatim>\<open>b\<close>
  that are not both dates and that bind the same set of keys to pairwise
  \<^verbatim>\<open>isEqual\<close> values, \<^verbatim>\<open>isEqual(a, b)\<close> is true, whatever the order in which the
  keys were inserted; in particular \<^verbatim>\<open>isEqual({a: 1, b: 2}, {b: 2, a: 1})\<close> is true.
\<close>

theorem isEqual_same_keys:
  assumes "typeof a = ''object''" "a \<noteq> JNull" "\<not> isArray a"
      and "typeof b = ''object''" "b \<noteq> JNull" "\<not> isArray b"
      and "\<not> (instanceof_Date a \<and> instanceof_Date b)"
      and "set (Object_keys a) = set (Object_keys b)"
      and "\<forall>key\<in>set (Object_keys a). isEqual (getProperty a key) (getProperty b key)"
  shows "isEqual a b"
  using assms by (simp add: isEqual_object list_all_iff)

theorem isEqual_same_keys_witness:
  "isEqual (JObj [(''a'', JNum 1), (''b'', JNum 2)]) (JObj [(''b'', JNum 2), (''a'', JNum 1)])"
  using isEqual_same_keys [of "JObj [(''a'', JNum 1), (''b'', JNum 2)]"
      "JObj [(''b'', JNum 2), (''a'', JNum 1)]"]
  by (simp add: isEqual_unfold insert_commute)

text \<open>
  As stated for all non-null, non-array objects, C5 fails on two dates: they
  are objects, neither null nor arrays, with the same (empty) set of keys, and
  they are compared by their timestamps.
\<close>

theorem isEqual_same_keys_counterexample:
  "typeof (JDate 1) = ''object'' \<and> JDate 1 \<noteq> JNull \<and> \<not> isArray (JDate 1) \<and>
   typeof (JDate 2) = ''object'' \<and> JDate 2 \<noteq> JNull \<and> \<not> isArray (JDate 2) \<and>
   Object_keys (JDate 1) = [] \<and> Object_keys (JDate 2) = [] \<and>
   \<not> isEqual (JDate 1) (JDate 2)"
  by (simp add: isEqual_unfold)

section \<open>Properties of the options\<close>

text \<open>
  C8. For every options value and every string or number key,
  \<^verbatim>\<open>childOptions\<close> returns an options value whose \<^verbatim>\<open>name\<close> is the old name, a
  dot and the key (a number by its digits), with \<^verbatim>\<open>validators\<close>, \<^verbatim>\<open>refs\<close>,
  \<^verbatim>\<open>root\<close> and every other field as they were; the result is a new object, and
  the object it was given, like every object that existed before the call, is
  not modified.
\<close>

theorem childOptions_frame:
  assumes "options < length heap"
  shows "ValidateOptions.name (childOptions (NameStr s) opts) =
           ValidateOptions.name opts @ ''.'' @ s \<and>
         ValidateOptions.name (childOptions (NameNum i) opts) =
           ValidateOptions.name opts @ ''.'' @ number_toString i \<and>
         validators (childOptions key opts) = validators opts \<and>
         refs (childOptions key opts) = refs opts \<and>
         root (childOptions key opts) = root opts \<and>
         ValidateOptions.more (childOptions key opts) = ValidateOptions.more opts \<and>
         (case childOptions_alloc key options heap of
            (child, heap') \<Rightarrow>
              child \<noteq> options \<and>
              heap' ! child = childOptions key (heap ! options) \<and>
              heap' ! options = heap ! options \<and>
              (\<forall>r<length heap. heap' ! r = heap ! r))"
  using assms by (simp add: childOptions_def childOptions_alloc_def nth_append)

theorem childOptions_frame_witness:
  "childOptions (NameNum 10)
     \<lparr>name = ''value.items'', validators = [''type''], refs = JNull, root = JBool True\<rparr> =
     \<lparr>name = ''value.items.10'', validators = [''type''], refs = JNull, root = JBool True\<rparr> \<and>
   childOptions_alloc (NameStr ''age'') 0
     [\<lparr>name = ''value.items'', validators = [''type''], refs = JNull, root = JBool True\<rparr>] =
     (1, [\<lparr>name = ''value.items'', validators = [''type''], refs = JNull, root = JBool True\<rparr>,
          \<lparr>name = ''value.items.age'', validators = [''type''], refs = JNull, root = JBool True\<rparr>])"
proof -
  let ?opts = "\<lparr>name = ''value.items'', validators = [''type''], refs = JNull, root = JBool True\<rparr>"
  have h: "(0::nat) < length [?opts]"
    by simp
  have ten: "number_toString 10 = ''10''"
    by (simp add: number_toString_def digits.simps [of 10] digits.simps [of "Suc 0"])
  show ?thesis
    using childOptions_frame [OF h, of "''age''" ?opts 10 "NameStr ''age''"]
    by (simp add: childOptions_def childOptions_alloc_def ten)
qed

section \<open>Properties of the dispatcher\<close>

text \<open>
  C1. For every value and every options, \<^verbatim>\<open>validateSchema\<close> on the schema
  \<^verbatim>\<open>false\<close> returns exactly the one error with code \<^verbatim>\<open>"false"\<close>, the name of
  the options and param \<^verbatim>\<open>false\<close>; where the name is \<^verbatim>\<open>"value"\<close>, as at the top
  level, that is the error named \<^verbatim>\<open>"value"\<close>.
\<close>

theorem validateSchema_false:
  "validateSchema call (JBool False) value options =
     [\<lparr>code = ''false'', name = ValidateOptions.name options, param = JBool False\<rparr>] \<and>
   validateSchema call (JBool False) value (options\<lparr>name := ''value''\<rparr>) =
     [\<lparr>code = ''false'', name = ''value'', param = JBool False\<rparr>]"
  by (simp add: validateSchema_def)

theorem validateSchema_false_witness:
  "validateSchema reject_all (JBool False) (JNum 3)
     \<lparr>name = ''value.age'', validators = [()], refs = JUndefined, root = JUndefined\<rparr> =
     [\<lparr>code = ''false'', name = ''value.age'', param = JBool False\<rparr>]"
  using validateSchema_false [of reject_all "JNum 3"
      "\<lparr>name = ''value.age'', validators = [()], refs = JUndefined, root = JUndefined\<rparr>"]
  by simp

text \<open>
  C2. For every value and every options, \<^verbatim>\<open>validateSchema\<close> on the schema
  \<^verbatim>\<open>true\<close> returns no error: every value is valid against \<^verbatim>\<open>true\<close>.
\<close>

theorem validateSchema_true: "validateSchema call (JBool True) value options = []"
  by (simp add: validateSchema_def)

theorem validateSchema_true_witness:
  "validateSchema reject_all (JBool True) (JNum 3)
     \<lparr>name = ''value'', validators = [()], refs = JUndefined, root = JUndefined\<rparr> = []"
  using validateSchema_true [of reject_all "JNum 3"
      "\<lparr>name = ''value'', validators = [()], refs = JUndefined, root = JUndefined\<rparr>"]
  by simp

lemma truthy_not_false: "truthy schema \<Longrightarrow> \<not> strict_eq schema (JBool False)"
  by (cases schema) auto

lemma nonboolean_not_true: "typeof schema \<noteq> ''boolean'' \<Longrightarrow> \<not> strict_eq schema (JBool True)"
  by (cases schema) auto

lemma validateSchema_dispatch:
  assumes "truthy schema" and "typeof schema \<noteq> ''boolean''"
  shows "validateSchema call schema value options =
           concat (map (\<lambda>validator. call validator schema value options) (validators options))"
  using assms truthy_not_false [of schema] nonboolean_not_true [of schema]
  by (simp add: validateSchema_def flatten_concat)

lemma isJsonSchema_dispatched:
  "isJsonSchema schema \<Longrightarrow> truthy schema \<and> typeof schema \<noteq> ''boolean''"
  by (simp add: isJsonSchema_def)

text \<open>
  C3. For every schema object (a truthy schema that is not a boolean), every
  value and every options with registered validators \<open>f1, ..., fn\<close>,
  \<^verbatim>\<open>validateSchema\<close> returns the concatenation of the lists
  \<open>f1(schema, value, options), ..., fn(schema, value, options)\<close> in the order of
  registration, each list in its own order: no validator is skipped, nothing
  is reordered.
\<close>

theorem validateSchema_object:
  assumes "truthy schema" and "typeof schema \<noteq> ''boolean''"
  shows "validateSchema call schema value options =
           concat (map (\<lambda>validator. call validator schema value options) (validators options))"
  using assms by (rule validateSchema_dispatch)

theorem validateSchema_object_witness:
  "isJsonSchema (JObj [(''type'', JStr ''string'')]) \<and>
   validateSchema report_keyword (JObj [(''type'', JStr ''string'')]) (JNum 1)
     \<lparr>name = ''value'', validators = [''type'', ''enum''], refs = JUndefined, root = JUndefined\<rparr> =
   [\<lparr>code = ''type'', name = ''value'', param = JObj [(''type'', JStr ''string'')]\<rparr>,
    \<lparr>code = ''enum'', name = ''value'', param = JObj [(''type'', JStr ''string'')]\<rparr>]"
proof -
  have h: "truthy (JObj [(''type'', JStr ''string'')])"
      "typeof (JObj [(''type'', JStr ''string'')]) \<noteq> ''boolean''"
    by simp_all
  show ?thesis
    using validateSchema_object [OF h, of report_keyword "JNum 1"
        "\<lparr>name = ''value'', validators = [''type'', ''enum''], refs = JUndefined, root = JUndefined\<rparr>"]
    by (simp add: report_keyword_def isJsonSchema_def)
qed

lemma non_schema_no_property:
  assumes "typeof schema \<noteq> ''boolean''" and "\<not> isJsonSchema schema"
  shows "\<not> truthy schema \<or> (\<forall>key. getProperty schema key = JUndefined)"
  using assms by (cases schema) (auto simp: isJsonSchema_def)

lemma concat_all_empty: "\<forall>x\<in>set xs. f x = [] \<Longrightarrow> concat (map f xs) = []"
  by (induction xs) simp_all

text \<open>
  C6. For every value and every options, \<^verbatim>\<open>validateSchema\<close> on a schema
  argument that is \<^verbatim>\<open>null\<close>, \<^verbatim>\<open>undefined\<close> or otherwise not a valid schema shape
  (neither a boolean nor a schema object) returns no error, as it does on the
  empty schema. For \<^verbatim>\<open>null\<close>, \<^verbatim>\<open>undefined\<close> and every other falsy argument
  this is the last branch of the function, whatever the validators are. A
  truthy argument that is not an object (a non-zero number, a non-empty string)
  is handed to the registered validators; it has no keyword, so validators
  that keep their contract (nothing is reported for an absent keyword) return
  nothing on it, as on the empty schema.
\<close>

theorem validateSchema_invalid_shape:
  "validateSchema call JNull value options = [] \<and>
   validateSchema call JUndefined value options = [] \<and>
   (typeof schema \<noteq> ''boolean'' \<and> \<not> truthy schema \<longrightarrow>
      validateSchema call schema value options = []) \<and>
   ((\<forall>validator\<in>set (validators options). \<forall>sch.
        honours_absence keyword call validator sch value options) \<and>
    typeof schema \<noteq> ''boolean'' \<and> \<not> isJsonSchema schema \<longrightarrow>
      validateSchema call schema value options = [] \<and>
      validateSchema call (JObj []) value options = [])"
proof (intro conjI impI)
  show "validateSchema call JNull value options = []"
    by (simp add: validateSchema_def)
  show "validateSchema call JUndefined value options = []"
    by (simp add: validateSchema_def)
next
  assume "typeof schema \<noteq> ''boolean'' \<and> \<not> truthy schema"
  then show "validateSchema call schema value options = []"
    by (cases schema) (auto simp: validateSchema_def)
next
  assume shape: "(\<forall>validator\<in>set (validators options). \<forall>sch.
        honours_absence keyword call validator sch value options) \<and>
    typeof schema \<noteq> ''boolean'' \<and> \<not> isJsonSchema schema"
  then have contract: "\<forall>validator\<in>set (validators options). \<forall>sch.
      getProperty sch (keyword validator) = JUndefined \<longrightarrow>
        call validator sch value options = []"
    by (simp add: honours_absence_def)
  show "validateSchema call schema value options = []"
  proof (cases "truthy schema")
    case False
    with shape show ?thesis
      by (cases schema) (auto simp: validateSchema_def)
  next
    case True
    with shape non_schema_no_property [of schema]
    have "\<forall>key. getProperty schema key = JUndefined" by blast
    with contract have "\<forall>validator\<in>set (validators options).
        call validator schema value options = []"
      by simp
    with True shape show ?thesis
      by (simp add: validateSchema_dispatch concat_all_empty)
  qed
next
  assume shape: "(\<forall>validator\<in>set (validators options). \<forall>sch.
        honours_absence keyword call validator sch value options) \<and>
    typeof schema \<noteq> ''boolean'' \<and> \<not> isJsonSchema schema"
  then have "\<forall>validator\<in>set (validators options).
      call validator (JObj []) value options = []"
    by (simp add: honours_absence_def)
  then show "validateSchema call (JObj []) value options = []"
    by (simp add: validateSchema_dispatch concat_all_empty)
qed

theorem validateSchema_invalid_shape_witness:
  "validateSchema check_keyword (JStr ''x'') (JNum 1)
     \<lparr>name = ''value'', validators = [''type'', ''enum''], refs = JUndefined, root = JUndefined\<rparr> = [] \<and>
   validateSchema check_keyword (JNum 0) (JNum 1)
     \<lparr>name = ''value'', validators = [''type'', ''enum''], refs = JUndefined, root = JUndefined\<rparr> = [] \<and>
   validateSchema check_keyword (JObj [(''enum'', JArr [])]) (JNum 1)
     \<lparr>name = ''value'', validators = [''type'', ''enum''], refs = JUndefined, root = JUndefined\<rparr> =
     [\<lparr>code = ''enum'', name = ''value'', param = JArr []\<rparr>]"
proof -
  let ?opts = "\<lparr>name = ''value'', validators = [''type'', ''enum''], refs = JUndefined,
                 root = JUndefined\<rparr>"
  have contract: "\<forall>validator\<in>set (validators ?opts). \<forall>sch.
      honours_absence (\<lambda>validator. validator) check_keyword validator sch (JNum 1) ?opts"
    by (simp add: honours_absence_def check_keyword_def)
  have str: "typeof (JStr ''x'') \<noteq> ''boolean'' \<and> \<not> isJsonSchema (JStr ''x'')"
    by (simp add: isJsonSchema_def)
  have zero: "typeof (JNum 0) \<noteq> ''boolean'' \<and> \<not> truthy (JNum 0)"
    by simp
  have present: "validateSchema check_keyword (JObj [(''enum'', JArr [])]) (JNum 1) ?opts =
     [\<lparr>code = ''enum'', name = ''value'', param = JArr []\<rparr>]"
    by (simp add: validateSchema_def flatten_def check_keyword_def)
  have "validateSchema check_keyword (JStr ''x'') (JNum 1) ?opts = []"
    using validateSchema_invalid_shape [of check_keyword "JNum 1" ?opts "JStr ''x''"
        "\<lambda>validator. validator"] contract str
    by blast
  moreover have "validateSchema check_keyword (JNum 0) (JNum 1) ?opts = []"
    using validateSchema_invalid_shape [of check_keyword "JNum 1" ?opts "JNum 0"
        "\<lambda>validator. validator"] zero
    by blast
  ultimately show ?thesis
    using present by simp
qed

subsection \<open>The dispatcher in memory\<close>

lemma extends_length: "take (length h) h' = h \<Longrightarrow> length h \<le> length h'"
proof -
  assume "take (length h) h' = h"
  then have "length (take (length h) h') = length h" by simp
  then show ?thesis by simp
qed

lemma extends_nth: "take (length h) h' = h \<Longrightarrow> r < length h \<Longrightarrow> h' ! r = h ! r"
  by (metis nth_take)

lemma extends_trans:
  assumes "take (length h) h1 = h" and "take (length h1) h2 = h1"
  shows "take (length h) h2 = h"
proof -
  have "take (length h) (take (length h1) h2) = take (length h) h2"
    using extends_length [OF assms(1)] by (simp add: min_absorb1)
  with assms show ?thesis by simp
qed

lemma fold_push_heap:
  "combined < length h \<Longrightarrow>
   fold (\<lambda>error h. push combined error h) errors h = h[combined := h ! combined @ errors]"
  by (induction errors arbitrary: h) (simp_all add: push_def)

lemma fold_results_heap:
  assumes "combined < length h" and "\<forall>result\<in>set results. result \<noteq> combined"
  shows "fold (\<lambda>result h. fold (\<lambda>error h. push combined error h) (h ! result) h) results h =
           h[combined := h ! combined @ concat (map (\<lambda>result. h ! result) results)]"
  using assms
proof (induction results arbitrary: h)
  case Nil
  then show ?case by simp
next
  case (Cons result results)
  let ?h = "h[combined := h ! combined @ h ! result]"
  have same: "map (\<lambda>r. ?h ! r) results = map (\<lambda>r. h ! r) results"
    using Cons.prems by (auto simp: nth_list_update)
  have "fold (\<lambda>result h. fold (\<lambda>error h. push combined error h) (h ! result) h) results ?h =
          ?h[combined := ?h ! combined @ concat (map (\<lambda>r. ?h ! r) results)]"
    using Cons.prems by (intro Cons.IH) simp_all
  with Cons.prems show ?case
    by (simp add: fold_push_heap same)
qed

lemma flatten_heap_result:
  assumes "\<forall>result\<in>set results. result < length h"
  shows "flatten_heap results h = (length h, h @ [concat (map (\<lambda>result. h ! result) results)])"
proof -
  have "\<forall>result\<in>set results. result \<noteq> length h"
    using assms by auto
  moreover have "concat (map (\<lambda>result. (h @ [[]]) ! result) results) =
      concat (map (\<lambda>result. h ! result) results)"
    using assms by (induction results) (simp_all add: nth_append)
  ultimately show ?thesis
    by (simp add: flatten_heap_def fold_results_heap [of "length h" "h @ [[]]"])
qed

lemma map_state_pure:
  assumes "\<forall>x\<in>set xs. \<forall>h. case f x h of (r, h') \<Rightarrow>
             r < length h' \<and> h' ! r = g x \<and> take (length h) h' = h"
  shows "case map_state f xs h of (rs, h') \<Rightarrow>
           take (length h) h' = h \<and> (\<forall>r\<in>set rs. r < length h') \<and>
           map (\<lambda>r. h' ! r) rs = map g xs"
  using assms
proof (induction xs arbitrary: h)
  case Nil
  show ?case by simp
next
  case (Cons x xs)
  obtain r h1 where first: "f x h = (r, h1)" by (cases "f x h")
  obtain rs h2 where rest: "map_state f xs h1 = (rs, h2)" by (cases "map_state f xs h1")
  from Cons.prems first have r: "r < length h1" "h1 ! r = g x" "take (length h) h1 = h"
    by (auto split: prod.splits)
  from Cons.IH [of h1] Cons.prems rest
  have rs: "take (length h1) h2 = h1" "\<forall>r\<in>set rs. r < length h2" "map (\<lambda>r. h2 ! r) rs = map g xs"
    by auto
  have "h2 ! r = g x"
    using extends_nth [OF rs(1) r(1)] r(2) by simp
  moreover have "r < length h2"
    using extends_length [OF rs(1)] r(1) by simp
  moreover have "take (length h) h2 = h"
    using r(3) rs(1) by (rule extends_trans)
  ultimately show ?case
    using first rest rs by simp
qed


lemma validateSchema_heap_result:
  assumes pure: "\<forall>validator\<in>set (validators options). \<forall>h.
             pure_validator callH call validator schema value options h"
  shows "\<exists>h1. take (length h) h1 = h \<and>
           validateSchema_heap callH schema value options h =
             (length h1, h1 @ [validateSchema call schema value options])"
proof (cases "truthy schema \<and> \<not> strict_eq schema (JBool True) \<and> \<not> strict_eq schema (JBool False)")
  case False
  then have "validateSchema_heap callH schema value options h =
      (length h, h @ [validateSchema call schema value options])"
    by (auto simp: validateSchema_heap_def validateSchema_def)
  then show ?thesis by auto
next
  case True
  obtain results h1 where run:
    "map_state (\<lambda>validator. callH validator schema value options) (validators options) h =
       (results, h1)"
    by (cases "map_state (\<lambda>validator. callH validator schema value options) (validators options) h")
  have "\<forall>validator\<in>set (validators options). \<forall>h.
      case callH validator schema value options h of
        (r, h') \<Rightarrow> r < length h' \<and> h' ! r = call validator schema value options \<and>
          take (length h) h' = h"
    using pure by (simp add: pure_validator_def)
  from map_state_pure [OF this, of h] run
  have h1: "take (length h) h1 = h" "\<forall>r\<in>set results. r < length h1"
    "map (\<lambda>r. h1 ! r) results =
       map (\<lambda>validator. call validator schema value options) (validators options)"
    by auto
  from True run h1(3) flatten_heap_result [OF h1(2)]
  have "validateSchema_heap callH schema value options h =
      (length h1, h1 @ [validateSchema call schema value options])"
    by (simp add: validateSchema_heap_def validateSchema_def flatten_concat)
  with h1(1) show ?thesis by auto
qed

text \<open>
  The dispatcher in memory does tell a validator with hidden state from a pure
  one: with the accumulating validator the second run returns another list
  than the first.
\<close>

lemma accumulating_differs:
  "(case validateSchema_heap accumulating (JObj []) JNull
           \<lparr>name = ''value'', validators = [()], refs = JUndefined, root = JUndefined\<rparr> [[]] of
      (errors, h') \<Rightarrow>
        (case validateSchema_heap accumulating (JObj []) JNull
                \<lparr>name = ''value'', validators = [()], refs = JUndefined, root = JUndefined\<rparr> h' of
           (errors2, h2') \<Rightarrow> h2' ! errors2 \<noteq> h' ! errors))"
  by (simp add: validateSchema_heap_def accumulating_def flatten_heap_def push_def)

text \<open>
  C7. \<^verbatim>\<open>validateSchema\<close> is deterministic. When every registered validator is
  a pure function, a call returns a newly allocated array, leaves every array
  that existed before as it was, and the errors in the returned array are the
  value of \<open>validateSchema\<close> at the schema, the value and the options, whatever
  the memory holds. So a second call with the same arguments returns the same
  list of errors as the first, whatever happened to the memory in between: the
  function keeps no state of its own.
\<close>

theorem validateSchema_deterministic:
  assumes "\<forall>validator\<in>set (validators options). \<forall>h.
             pure_validator callH call validator schema value options h"
  shows "(case validateSchema_heap callH schema value options h of
            (errors, h') \<Rightarrow>
              length h \<le> errors \<and> errors < length h' \<and> take (length h) h' = h \<and>
              h' ! errors = validateSchema call schema value options) \<and>
         (case validateSchema_heap callH schema value options h of
            (errors, h') \<Rightarrow>
              (case validateSchema_heap callH schema value options h2 of
                 (errors2, h2') \<Rightarrow> h2' ! errors2 = h' ! errors))"
proof -
  obtain h1 where h1: "take (length h) h1 = h"
    "validateSchema_heap callH schema value options h =
       (length h1, h1 @ [validateSchema call schema value options])"
    using validateSchema_heap_result [OF assms, of h] by blast
  obtain h3 where h3: "take (length h2) h3 = h2"
    "validateSchema_heap callH schema value options h2 =
       (length h3, h3 @ [validateSchema call schema value options])"
    using validateSchema_heap_result [OF assms, of h2] by blast
  have "length h \<le> length h1"
    using h1(1) by (rule extends_length)
  with h1 h3 show ?thesis
    by simp
qed

theorem validateSchema_deterministic_witness:
  "(case validateSchema_heap (allocating report_keyword) (JObj []) (JNum 1)
           \<lparr>name = ''value'', validators = [''type'', ''enum''], refs = JUndefined,
              root = JUndefined\<rparr> [] of
      (errors, h') \<Rightarrow>
        h' ! errors = [\<lparr>code = ''type'', name = ''value'', param = JObj []\<rparr>,
                       \<lparr>code = ''enum'', name = ''value'', param = JObj []\<rparr>] \<and>
        (case validateSchema_heap (allocating report_keyword) (JObj []) (JNum 1)
                \<lparr>name = ''value'', validators = [''type'', ''enum''], refs = JUndefined,
                   root = JUndefined\<rparr> h' of
           (errors2, h2') \<Rightarrow> h2' ! errors2 = h' ! errors \<and> take (length h') h2' = h'))"
proof -
  let ?opts = "\<lparr>name = ''value'', validators = [''type'', ''enum''], refs = JUndefined,
                 root = JUndefined\<rparr>"
  let ?run = "validateSchema_heap (allocating report_keyword) (JObj []) (JNum 1) ?opts"
  have pure: "\<forall>validator\<in>set (validators ?opts). \<forall>h.
      pure_validator (allocating report_keyword) report_keyword validator (JObj []) (JNum 1) ?opts h"
    by (simp add: pure_validator_def allocating_def)
  have first: "validateSchema report_keyword (JObj []) (JNum 1) ?opts =
      [\<lparr>code = ''type'', name = ''value'', param = JObj []\<rparr>,
       \<lparr>code = ''enum'', name = ''value'', param = JObj []\<rparr>]"
    by (simp add: validateSchema_def flatten_def report_keyword_def)
  from validateSchema_deterministic [OF pure, of "[]" "snd (?run [])"]
    validateSchema_deterministic [OF pure, of "snd (?run [])" "[]"]
    first
  show ?thesis
    by (auto split: prod.splits)
qed


end
